theory Spec2Isabelle
  imports Main "HOL-Library.Sublist"
begin

section \<open>Errors\<close>

text \<open>
  The exceptions that can cross the modelled code: \<open>IndexError\<close> is what Python's
  \<open>list.pop\<close> raises for an index out of range (or an empty list); \<open>ServiceError\<close>
  stands for whatever the injected client raises, with its payload, so that
  "propagates unmodified" can be stated.
\<close>

datatype error = IndexError | ServiceError string

section \<open>utils/completions.py\<close>

subsection \<open>Messages\<close>

text \<open>A message is the dict \<open>{"role": role, "content": prompt}\<close>.\<close>

record message =
  role :: string
  content :: string

text \<open>
  \<open>build_prompt_structure(prompt, role, tag="")\<close>: a non-empty tag wraps the prompt
  in \<open><tag>...</tag>\<close>.
\<close>

definition build_prompt_structure :: "string \<Rightarrow> string \<Rightarrow> string \<Rightarrow> message" where
  "build_prompt_structure prompt rl tag =
     (let prompt' = (if tag \<noteq> [] then ''<'' @ tag @ ''>'' @ prompt @ ''</'' @ tag @ ''>''
                     else prompt)
      in \<lparr>role = rl, content = prompt'\<rparr>)"

subsection \<open>Python's list.pop\<close>

text \<open>
  \<open>xs.pop(i)\<close>: a negative index counts from the end; an index outside the list
  (in particular any index on the empty list) raises \<open>IndexError\<close> and leaves the
  list as it was. Otherwise the element is removed and returned.
\<close>

definition pop :: "'a list \<Rightarrow> int \<Rightarrow> error + ('a \<times> 'a list)" where
  "pop xs i =
     (let k = (if 0 \<le> i then i else i + int (length xs))
      in if k < 0 \<or> int (length xs) \<le> k then Inl IndexError
         else Inr (xs ! nat k, take (nat k) xs @ drop (nat k + 1) xs))"

subsection \<open>ChatHistory and FixedFirstChatHistory\<close>

text \<open>
  \<open>ChatHistory\<close> is a \<open>list\<close> subclass carrying \<open>total_length\<close>;
  \<open>FixedFirstChatHistory\<close> overrides \<open>append\<close>. The class of an object is the
  field \<open>kind\<close>, on which \<open>append\<close> dispatches.
\<close>

datatype history_kind = Plain | FixedFirst

record 'a chat_history =
  kind :: history_kind
  items :: "'a list"
  total_length :: int

text \<open>
  \<open>__init__(messages=None, total_length=-1)\<close> stores what it is given; it checks
  neither the capacity nor the number of seed messages.
\<close>

definition ChatHistory_init :: "'a list option \<Rightarrow> int \<Rightarrow> 'a chat_history" where
  "ChatHistory_init messages total_len =
     \<lparr>kind = Plain,
      items = (case messages of None \<Rightarrow> [] | Some ms \<Rightarrow> ms),
      total_length = total_len\<rparr>"

definition FixedFirstChatHistory_init :: "'a list option \<Rightarrow> int \<Rightarrow> 'a chat_history" where
  "FixedFirstChatHistory_init messages total_len =
     (ChatHistory_init messages total_len)\<lparr>kind := FixedFirst\<rparr>"

text \<open>
  \<open>append\<close> returns the exception raised, if any, and the history afterwards.
  The only statement that can raise is the \<open>pop\<close>, which comes before any
  mutation, so a failed append leaves the history as it was.
\<close>

definition ChatHistory_append :: "'a chat_history \<Rightarrow> 'a \<Rightarrow> error option \<times> 'a chat_history" where
  "ChatHistory_append h msg =
     (if int (length (items h)) = total_length h
      then (case pop (items h) 0 of
              Inl e \<Rightarrow> (Some e, h)
            | Inr (_, rest) \<Rightarrow> (None, h\<lparr>items := rest @ [msg]\<rparr>))
      else (None, h\<lparr>items := items h @ [msg]\<rparr>))"

definition FixedFirstChatHistory_append ::
    "'a chat_history \<Rightarrow> 'a \<Rightarrow> error option \<times> 'a chat_history" where
  "FixedFirstChatHistory_append h msg =
     (if int (length (items h)) = total_length h
      then (case pop (items h) 1 of
              Inl e \<Rightarrow> (Some e, h)
            | Inr (_, rest) \<Rightarrow> (None, h\<lparr>items := rest @ [msg]\<rparr>))
      else (None, h\<lparr>items := items h @ [msg]\<rparr>))"

text \<open>The method call \<open>history.append(msg)\<close>.\<close>

definition append_msg :: "'a chat_history \<Rightarrow> 'a \<Rightarrow> error option \<times> 'a chat_history" where
  "append_msg h msg =
     (case kind h of
        Plain \<Rightarrow> ChatHistory_append h msg
      | FixedFirst \<Rightarrow> FixedFirstChatHistory_append h msg)"

text \<open>
  A caller appending several messages in turn, \<open>for m in ms: h.append(m)\<close>: the
  first exception ends the loop.
\<close>

fun append_all :: "'a chat_history \<Rightarrow> 'a list \<Rightarrow> error option \<times> 'a chat_history" where
  "append_all h [] = (None, h)"
| "append_all h (m # ms) =
     (case append_msg h m of
        (Some e, h') \<Rightarrow> (Some e, h')
      | (None, h') \<Rightarrow> append_all h' ms)"

text \<open>\<open>update_chat_history(history, msg, role)\<close>.\<close>

definition update_chat_history ::
    "message chat_history \<Rightarrow> string \<Rightarrow> string \<Rightarrow> error option \<times> message chat_history" where
  "update_chat_history history msg rl = append_msg history (build_prompt_structure msg rl [])"

section \<open>s01_reflection/prompts.py and 1_reflection/prompts.py\<close>

definition BASE_GENERATION_SYSTEM_PROMPT :: string where
  "BASE_GENERATION_SYSTEM_PROMPT =
     ''\<newline>Your task is to Generate the best content possible for the user'' @ [CHR 0x27] @
     ''s request.\<newline>If the user provides critique, respond with a revised version of your previous attempt.\<newline>You must always output the revised content.\<newline>''"

definition BASE_REFLECTION_SYSTEM_PROMPT :: string where
  "BASE_REFLECTION_SYSTEM_PROMPT =
     ''\<newline>You are tasked with generating critique and recommendations to the user'' @ [CHR 0x27] @
     ''s generated content.\<newline>If the user content has something wrong or something to be improved, output a list of recommendations\<newline>and critiques. If the user content is ok and there'' @ [CHR 0x27] @
     ''s nothing to change, output this: <OK>\<newline>''"

text \<open>
  \<open>compose_prompt(custom, base) = (custom or "") + base\<close>. Python's \<open>or\<close> takes
  the right operand when the left one is falsy: \<open>None\<close> or the empty string.
\<close>

definition compose_prompt :: "string option \<Rightarrow> string \<Rightarrow> string" where
  "compose_prompt custom base =
     (case custom of
        None \<Rightarrow> []
      | Some c \<Rightarrow> (if c = [] then [] else c)) @ base"

text \<open>The copy of the same function in \<open>1_reflection/prompts.py\<close>.\<close>

definition compose_prompt_1 :: "string option \<Rightarrow> string \<Rightarrow> string" where
  "compose_prompt_1 custom base =
     (case custom of
        None \<Rightarrow> []
      | Some c \<Rightarrow> (if c = [] then [] else c)) @ base"

section \<open>s01_reflection/agent.py\<close>

subsection \<open>The injected client\<close>

text \<open>
  The client is whatever object was injected; \<open>completions_create\<close> calls
  \<open>client.chat.completions.create(messages=..., model=...)\<close> and returns the text
  of the first choice. A client is modelled as a deterministic machine: from its
  current state, the messages and the model name it either returns a text or raises,
  and moves to a new state. It reads the messages and does not mutate them.
\<close>

type_synonym 's completion_port = "'s \<Rightarrow> message list \<Rightarrow> string \<Rightarrow> (error + string) \<times> 's"

definition completions_create ::
    "'s completion_port \<Rightarrow> 's \<Rightarrow> message list \<Rightarrow> string \<Rightarrow> (error + string) \<times> 's" where
  "completions_create port client messages mdl = port client messages mdl"

text \<open>
  Every request is recorded as a call: the stage that made it, the messages sent and
  what came back. The calls are the observable behaviour of \<open>run\<close> towards the
  client; they are not a variable of the source.
\<close>

datatype stage = Generate | Reflect

record call =
  stage :: stage
  sent :: "message list"
  reply :: "error + string"

text \<open>
  \<open>_request_completion\<close>, and \<open>generate\<close> and \<open>reflect\<close>, which differ in the
  titles they print when \<open>verbose > 0\<close>. Printing is not modelled.
\<close>

definition request_completion ::
    "'s completion_port \<Rightarrow> string \<Rightarrow> 's \<Rightarrow> message list \<Rightarrow> (error + string) \<times> 's" where
  "request_completion port mdl client history = completions_create port client history mdl"

definition generate ::
    "'s completion_port \<Rightarrow> string \<Rightarrow> 's \<Rightarrow> message list \<Rightarrow> (error + string) \<times> 's \<times> call" where
  "generate port mdl client generation_history =
     (case request_completion port mdl client generation_history of
        (r, client') \<Rightarrow> (r, client', \<lparr>stage = Generate, sent = generation_history, reply = r\<rparr>))"

definition reflect ::
    "'s completion_port \<Rightarrow> string \<Rightarrow> 's \<Rightarrow> message list \<Rightarrow> (error + string) \<times> 's \<times> call" where
  "reflect port mdl client reflection_history =
     (case request_completion port mdl client reflection_history of
        (r, client') \<Rightarrow> (r, client', \<lparr>stage = Reflect, sent = reflection_history, reply = r\<rparr>))"

subsection \<open>The loop of run\<close>

text \<open>The sentinel test \<open>"<OK>" in critique\<close>: substring containment.\<close>

definition has_stop_sequence :: "string \<Rightarrow> bool" where
  "has_stop_sequence critique = sublist ''<OK>'' critique"

text \<open>The local variables of \<open>run\<close> that the loop reads and writes, and the client.\<close>

record 's run_state =
  client :: 's
  generation_history :: "message chat_history"
  reflection_history :: "message chat_history"
  final_generation :: string

text \<open>How one pass through the loop body ends.\<close>

datatype control = Continue | Break | Raise error

text \<open>
  The body of \<open>for step in range(n_steps)\<close>, statement by statement. Every
  statement that can raise has its branch; the state returned with \<open>Raise\<close> is the
  state at the raising statement.
\<close>

definition loop_body ::
    "'s completion_port \<Rightarrow> string \<Rightarrow> 's run_state \<Rightarrow> control \<times> 's run_state \<times> call list" where
  "loop_body port mdl s =
     (case generate port mdl (client s) (items (generation_history s)) of
        (Inl e, c1, call1) \<Rightarrow> (Raise e, s\<lparr>client := c1\<rparr>, [call1])
      | (Inr g, c1, call1) \<Rightarrow>
          (let s1 = s\<lparr>client := c1, final_generation := g\<rparr> in
           case update_chat_history (generation_history s1) g ''assistant'' of
             (Some e, gh) \<Rightarrow> (Raise e, s1\<lparr>generation_history := gh\<rparr>, [call1])
           | (None, gh) \<Rightarrow>
               (let s2 = s1\<lparr>generation_history := gh\<rparr> in
                case update_chat_history (reflection_history s2) g ''user'' of
                  (Some e, rh) \<Rightarrow> (Raise e, s2\<lparr>reflection_history := rh\<rparr>, [call1])
                | (None, rh) \<Rightarrow>
                    (let s3 = s2\<lparr>reflection_history := rh\<rparr> in
                     case reflect port mdl (client s3) (items (reflection_history s3)) of
                       (Inl e, c2, call2) \<Rightarrow> (Raise e, s3\<lparr>client := c2\<rparr>, [call1, call2])
                     | (Inr critique, c2, call2) \<Rightarrow>
                         (let s4 = s3\<lparr>client := c2\<rparr> in
                          if has_stop_sequence critique then (Break, s4, [call1, call2])
                          else
                            case update_chat_history (generation_history s4) critique ''user'' of
                              (Some e, gh') \<Rightarrow>
                                (Raise e, s4\<lparr>generation_history := gh'\<rparr>, [call1, call2])
                            | (None, gh') \<Rightarrow>
                                (let s5 = s4\<lparr>generation_history := gh'\<rparr> in
                                 case update_chat_history (reflection_history s5) critique
                                        ''assistant'' of
                                   (Some e, rh') \<Rightarrow>
                                     (Raise e, s5\<lparr>reflection_history := rh'\<rparr>, [call1, call2])
                                 | (None, rh') \<Rightarrow>
                                     (Continue, s5\<lparr>reflection_history := rh'\<rparr>,
                                      [call1, call2])))))))"

text \<open>
  The \<open>for\<close> loop, with the number of passes left as the recursion argument.
  It returns the exception that ended it (if any), the state, and the calls made.
\<close>

fun run_loop ::
    "'s completion_port \<Rightarrow> string \<Rightarrow> nat \<Rightarrow> 's run_state \<Rightarrow> error option \<times> 's run_state \<times> call list" where
  "run_loop port mdl 0 s = (None, s, [])"
| "run_loop port mdl (Suc k) s =
     (case loop_body port mdl s of
        (Raise e, s', calls) \<Rightarrow> (Some e, s', calls)
      | (Break, s', calls) \<Rightarrow> (None, s', calls)
      | (Continue, s', calls) \<Rightarrow>
          (case run_loop port mdl k s' of
             (r, s'', calls') \<Rightarrow> (r, s'', calls @ calls')))"

text \<open>The state when the loop is entered: both histories seeded, no generation yet.\<close>

definition initial_state ::
    "'s \<Rightarrow> string \<Rightarrow> string option \<Rightarrow> string option \<Rightarrow> 's run_state" where
  "initial_state client0 user_msg generation_system_prompt reflection_system_prompt =
     (let gen_sys_prompt = compose_prompt generation_system_prompt BASE_GENERATION_SYSTEM_PROMPT;
          ref_sys_prompt = compose_prompt reflection_system_prompt BASE_REFLECTION_SYSTEM_PROMPT
      in \<lparr>client = client0,
          generation_history =
            FixedFirstChatHistory_init
              (Some [build_prompt_structure gen_sys_prompt ''system'' [],
                     build_prompt_structure user_msg ''user'' []]) 3,
          reflection_history =
            FixedFirstChatHistory_init
              (Some [build_prompt_structure ref_sys_prompt ''system'' []]) 3,
          final_generation = []\<rparr>)"

text \<open>
  \<open>run(user_msg, generation_system_prompt, reflection_system_prompt, n_steps)\<close> for
  an agent with the given client and model name. \<open>range(n_steps)\<close> is empty for
  \<open>n_steps \<le> 0\<close>, which is what \<open>nat\<close> gives. The result is what \<open>run\<close> returns or
  raises, together with the final state and the calls made.
\<close>

definition run ::
    "'s completion_port \<Rightarrow> string \<Rightarrow> 's \<Rightarrow> string \<Rightarrow> string option \<Rightarrow> string option \<Rightarrow> int
       \<Rightarrow> (error + string) \<times> 's run_state \<times> call list" where
  "run port mdl client0 user_msg generation_system_prompt reflection_system_prompt n_steps =
     (case run_loop port mdl (nat n_steps)
             (initial_state client0 user_msg generation_system_prompt reflection_system_prompt) of
        (Some e, s, calls) \<Rightarrow> (Inl e, s, calls)
      | (None, s, calls) \<Rightarrow> (Inr (final_generation s), s, calls))"

section \<open>Notions used in the proofs\<close>

text \<open>
  Both histories of \<open>run\<close> are \<open>FixedFirstChatHistory\<close> objects with
  \<open>total_length = 3\<close>; the loop never changes that.
\<close>

definition capped3 :: "'s run_state \<Rightarrow> bool" where
  "capped3 s \<longleftrightarrow>
     kind (generation_history s) = FixedFirst \<and> total_length (generation_history s) = 3 \<and>
     kind (reflection_history s) = FixedFirst \<and> total_length (reflection_history s) = 3"

text \<open>
  What \<open>FixedFirstChatHistory.append\<close> does to the items of such a history when
  \<open>update_chat_history\<close> adds a text with a role: at three items the second one goes.
\<close>

definition push3 :: "message list \<Rightarrow> string \<Rightarrow> string \<Rightarrow> message list" where
  "push3 xs rl text =
     (if length xs = 3 then hd xs # drop 2 xs else xs) @ [\<lparr>role = rl, content = text\<rparr>]"

text \<open>
  A test double for the client: it answers the requests in turn from a script, whatever
  the messages are, and raises once the script is used up. Its state is the rest of
  the script.
\<close>

definition scripted_client :: "(error + string) list completion_port" where
  "scripted_client script messages mdl =
     (case script of
        [] \<Rightarrow> (Inl (ServiceError ''no reply scripted''), [])
      | r # rest \<Rightarrow> (r, rest))"

section \<open>Properties of the history containers\<close>

subsection \<open>list.pop at the two indices the histories use\<close>

lemma pop_one: "2 \<le> length xs \<Longrightarrow> pop xs 1 = Inr (xs ! 1, hd xs # drop 2 xs)"
  by (cases xs) (auto simp: pop_def Let_def)

lemma pop_one_short: "length xs \<le> 1 \<Longrightarrow> pop xs 1 = Inl IndexError"
  by (auto simp: pop_def Let_def)

lemma pop_zero: "xs \<noteq> [] \<Longrightarrow> pop xs 0 = Inr (hd xs, tl xs)"
  by (cases xs) (auto simp: pop_def Let_def)

lemma pop_zero_empty: "pop [] 0 = Inl IndexError"
  by (auto simp: pop_def Let_def)

lemma FixedFirst_append_ok:
  assumes "2 \<le> total_length h"
  shows "FixedFirstChatHistory_append h m =
           (None, h\<lparr>items := (if int (length (items h)) = total_length h
                               then hd (items h) # drop 2 (items h) else items h) @ [m]\<rparr>)"
proof (cases "int (length (items h)) = total_length h")
  case True
  with assms have "2 \<le> length (items h)" by simp
  then show ?thesis using True by (simp add: FixedFirstChatHistory_append_def pop_one)
next
  case False
  then show ?thesis by (simp add: FixedFirstChatHistory_append_def)
qed

subsection \<open>The protected first message\<close>

lemma FixedFirst_append_all_first:
  assumes "kind h = FixedFirst" and "2 \<le> total_length h" and "items h \<noteq> []"
  shows "\<exists>h'. append_all h ms = (None, h') \<and> kind h' = FixedFirst \<and>
              total_length h' = total_length h \<and> items h' \<noteq> [] \<and> items h' ! 0 = items h ! 0"
  using assms
proof (induction ms arbitrary: h)
  case Nil
  then show ?case by simp
next
  case (Cons m ms)
  define h1 where "h1 = h\<lparr>items := (if int (length (items h)) = total_length h
                               then hd (items h) # drop 2 (items h) else items h) @ [m]\<rparr>"
  have step: "append_msg h m = (None, h1)"
    using Cons.prems by (simp add: append_msg_def FixedFirst_append_ok h1_def)
  have "kind h1 = FixedFirst" "2 \<le> total_length h1" "items h1 \<noteq> []"
    using Cons.prems by (simp_all add: h1_def)
  from Cons.IH[OF this] obtain h' where
    h': "append_all h1 ms = (None, h')" "kind h' = FixedFirst" "total_length h' = total_length h1"
        "items h' \<noteq> []" "items h' ! 0 = items h1 ! 0" by blast
  have "items h1 ! 0 = items h ! 0"
    using Cons.prems(3) by (cases "items h") (simp_all add: h1_def)
  moreover have "total_length h1 = total_length h" by (simp add: h1_def)
  ultimately show ?case using step h' by simp
qed

text \<open>
  C3. A \<open>FixedFirstChatHistory\<close> constructed with capacity at least 2 and at least one
  seed message \<open>m0\<close>: whatever messages are appended afterwards, and however many,
  every append returns normally and position 0 still holds \<open>m0\<close>.
\<close>

theorem fixed_first_never_evicts_first:
  assumes "2 \<le> cap"
  shows "\<exists>h'. append_all (FixedFirstChatHistory_init (Some (m0 # seed)) cap) new = (None, h') \<and>
              items h' \<noteq> [] \<and> items h' ! 0 = m0"
proof -
  let ?h = "FixedFirstChatHistory_init (Some (m0 # seed)) cap"
  have "kind ?h = FixedFirst" "2 \<le> total_length ?h" "items ?h \<noteq> []"
    using assms by (simp_all add: FixedFirstChatHistory_init_def ChatHistory_init_def)
  from FixedFirst_append_all_first[OF this, of new] show ?thesis
    by (auto simp: FixedFirstChatHistory_init_def ChatHistory_init_def)
qed

theorem fixed_first_never_evicts_first_witness:
  "(2::int) \<le> 2 \<and>
   append_all (FixedFirstChatHistory_init (Some [''sys'', ''u'']) 2) [''a'', ''b'', ''c''] =
     (None, \<lparr>kind = FixedFirst, items = [''sys'', ''c''], total_length = 2\<rparr>)"
  using fixed_first_never_evicts_first [of 2 "''sys''" "[''u'']" "[''a'', ''b'', ''c'']"]
  by (simp add: FixedFirstChatHistory_init_def ChatHistory_init_def append_msg_def
        FixedFirstChatHistory_append_def pop_def)

text \<open>
  C10. A \<open>FixedFirstChatHistory\<close> with \<open>total_length = 1\<close> that holds one message:
  \<open>append\<close> raises \<open>IndexError\<close> (the eviction is \<open>pop(1)\<close> on a one-element list)
  and the history is what it was, so the first message is still there and the new
  one is not.
\<close>

theorem fixed_first_capacity_one_append_fails:
  assumes "kind h = FixedFirst" and "total_length h = 1" and "length (items h) = 1"
  shows "append_msg h msg = (Some IndexError, h) \<and>
         FixedFirstChatHistory_append h msg = (Some IndexError, h)"
  using assms by (simp add: append_msg_def FixedFirstChatHistory_append_def pop_one_short)

theorem fixed_first_capacity_one_append_fails_witness:
  "kind (FixedFirstChatHistory_init (Some [''sys'']) 1) = FixedFirst \<and>
   total_length (FixedFirstChatHistory_init (Some [''sys'']) 1) = 1 \<and>
   length (items (FixedFirstChatHistory_init (Some [''sys'']) 1)) = 1 \<and>
   append_msg (FixedFirstChatHistory_init (Some [''sys'']) 1) ''new'' =
     (Some IndexError, \<lparr>kind = FixedFirst, items = [''sys''], total_length = 1\<rparr>)"
  using fixed_first_capacity_one_append_fails
          [of "FixedFirstChatHistory_init (Some [''sys'']) 1" "''new''"]
  by (simp add: FixedFirstChatHistory_init_def ChatHistory_init_def)

section \<open>Properties of the prompt composer\<close>

text \<open>
  C8. \<open>compose_prompt(None, base)\<close> and \<open>compose_prompt("", base)\<close> are \<open>base\<close>, and
  \<open>compose_prompt(x, base)\<close> is \<open>x\<close> directly followed by \<open>base\<close> for every text
  \<open>x\<close> (so for every non-empty one). Both copies of the function agree. The result
  depends on the two arguments only.
\<close>

theorem compose_prompt_identity:
  "compose_prompt None base = base \<and> compose_prompt (Some []) base = base \<and>
   compose_prompt (Some x) base = x @ base \<and>
   compose_prompt_1 None base = base \<and> compose_prompt_1 (Some []) base = base \<and>
   compose_prompt_1 (Some x) base = x @ base"
  by (simp add: compose_prompt_def compose_prompt_1_def)

section \<open>Capacity and the shape of an append\<close>

lemma append_msg_cases:
  "append_msg h m =
     (if int (length (items h)) \<noteq> total_length h then (None, h\<lparr>items := items h @ [m]\<rparr>)
      else case kind h of
             Plain \<Rightarrow> (if items h = [] then (Some IndexError, h)
                       else (None, h\<lparr>items := tl (items h) @ [m]\<rparr>))
           | FixedFirst \<Rightarrow> (if length (items h) \<le> 1 then (Some IndexError, h)
                            else (None, h\<lparr>items := (hd (items h) # drop 2 (items h)) @ [m]\<rparr>)))"
proof (cases "kind h")
  case Plain
  then show ?thesis
    by (cases "items h = []")
       (simp_all add: append_msg_def ChatHistory_append_def pop_zero pop_zero_empty)
next
  case FixedFirst
  show ?thesis
  proof (cases "length (items h) \<le> 1")
    case True
    then show ?thesis using FixedFirst
      by (simp add: append_msg_def FixedFirstChatHistory_append_def pop_one_short)
  next
    case False
    then have "2 \<le> length (items h)" by simp
    then show ?thesis using FixedFirst False
      by (simp add: append_msg_def FixedFirstChatHistory_append_def pop_one)
  qed
qed

lemma append_msg_bound:
  assumes "int (length (items h)) \<le> total_length h" and "append_msg h m = (r, h')"
  shows "int (length (items h')) \<le> total_length h' \<and> total_length h' = total_length h"
proof (cases "int (length (items h)) = total_length h")
  case False
  with assms show ?thesis by (auto simp: append_msg_cases)
next
  case True
  show ?thesis
  proof (cases "kind h")
    case Plain
    with assms True show ?thesis
      by (cases "items h") (auto simp: append_msg_cases)
  next
    case FixedFirst
    with assms True show ?thesis
      by (cases "length (items h) \<le> 1") (auto simp: append_msg_cases)
  qed
qed

lemma append_all_bound:
  assumes "int (length (items h)) \<le> total_length h"
  shows "int (length (items (snd (append_all h ms)))) \<le> total_length h \<and>
         total_length (snd (append_all h ms)) = total_length h"
  using assms
proof (induction ms arbitrary: h)
  case Nil
  then show ?case by simp
next
  case (Cons m ms)
  obtain r h1 where step: "append_msg h m = (r, h1)" by (cases "append_msg h m")
  from append_msg_bound[OF Cons.prems step]
  have b: "int (length (items h1)) \<le> total_length h1" "total_length h1 = total_length h"
    by simp_all
  show ?case
  proof (cases r)
    case None
    with step Cons.IH[OF b(1)] b(2) show ?thesis by simp
  next
    case (Some e)
    with step b show ?thesis by simp
  qed
qed

lemma append_fold_bound:
  assumes "int (length (items h)) \<le> total_length h"
  shows "int (length (items (fold (\<lambda>m h. snd (append_msg h m)) ms h))) \<le> total_length h \<and>
         total_length (fold (\<lambda>m h. snd (append_msg h m)) ms h) = total_length h"
  using assms
proof (induction ms arbitrary: h)
  case Nil
  then show ?case by simp
next
  case (Cons m ms)
  have step: "append_msg h m = (fst (append_msg h m), snd (append_msg h m))" by simp
  from append_msg_bound[OF Cons.prems step]
  have b: "int (length (items (snd (append_msg h m)))) \<le> total_length (snd (append_msg h m))"
    "total_length (snd (append_msg h m)) = total_length h"
    by simp_all
  from Cons.IH[OF b(1)] b(2) show ?case by simp
qed

lemma subseq_drop_second: "xs \<noteq> [] \<Longrightarrow> subseq (hd xs # drop 2 xs) xs"
proof (cases xs)
  case Nil
  assume "xs \<noteq> []"
  with Nil show ?thesis by simp
next
  case (Cons a ys)
  then show ?thesis by (cases ys) auto
qed

lemma subseq_tl: "subseq (tl xs) xs"
  by (cases xs) auto

lemma append_msg_shape:
  "case append_msg h m of
     (None, h') \<Rightarrow>
       (\<exists>kept. items h' = kept @ [m] \<and> subseq kept (items h) \<and>
               (int (length (items h)) \<noteq> total_length h \<longrightarrow> kept = items h))
   | (Some e, h') \<Rightarrow>
       e = IndexError \<and> h' = h \<and> int (length (items h)) = total_length h \<and> total_length h \<le> 1"
proof (cases "int (length (items h)) = total_length h")
  case False
  then show ?thesis by (simp add: append_msg_cases)
next
  case True
  show ?thesis
  proof (cases "kind h")
    case Plain
    with True show ?thesis
      by (cases "items h = []") (auto simp: append_msg_cases subseq_tl)
  next
    case FixedFirst
    with True show ?thesis
      by (cases "length (items h) \<le> 1")
         (auto simp: append_msg_cases intro!: subseq_drop_second)
  qed
qed

text \<open>
  While a history holds at most \<open>total_length\<close> messages, appends keep it so,
  whether the caller stops at the first \<open>append\<close> that raises (\<open>append_all\<close>) or
  catches the exception and carries on (the \<open>fold\<close>); \<open>total_length\<close> itself never
  changes.
\<close>

lemma capacity_kept_when_seeded_within:
  assumes "int (length (items h)) \<le> total_length h"
  shows "int (length (items (snd (append_all h ms)))) \<le> total_length (snd (append_all h ms)) \<and>
         total_length (snd (append_all h ms)) = total_length h \<and>
         int (length (items (fold (\<lambda>m h. snd (append_msg h m)) ms h))) \<le> total_length h"
  using append_all_bound[OF assms, of ms] append_fold_bound[OF assms, of ms] by simp

text \<open>
  C4. The property: a history with a finite \<open>total_length\<close> never holds more than
  \<open>total_length\<close> messages after an append, and \<open>append\<close> always puts the new
  message at the end. The docstrings say the same (\<open>total_length\<close> is "the maximum
  number of messages the chat history can hold"; \<open>append\<close> adds a message, "discarding
  the oldest if full"). The code does not keep it. A \<open>ChatHistory\<close> constructed from
  three messages with \<open>total_length = 2\<close> never has \<open>len == total_length\<close>, so
  \<open>append\<close> evicts nothing and the history holds four messages. An empty
  \<open>ChatHistory\<close> with \<open>total_length = 0\<close> is full, and \<open>append\<close> raises
  \<open>IndexError\<close> from \<open>pop(0)\<close> instead of adding the message.
\<close>

theorem capacity_exceeded_when_overseeded:
  "total_length (ChatHistory_init (Some [''a'', ''b'', ''c'']) 2) \<noteq> - 1 \<and>
   append_msg (ChatHistory_init (Some [''a'', ''b'', ''c'']) 2) ''d'' =
     (None, \<lparr>kind = Plain, items = [''a'', ''b'', ''c'', ''d''], total_length = 2\<rparr>) \<and>
   total_length (snd (append_msg (ChatHistory_init (Some [''a'', ''b'', ''c'']) 2) ''d''))
     < int (length (items (snd (append_msg (ChatHistory_init (Some [''a'', ''b'', ''c'']) 2) ''d'')))) \<and>
   append_msg (ChatHistory_init None 0) ''d'' =
     (Some IndexError, \<lparr>kind = Plain, items = [], total_length = 0\<rparr>)"
  by (simp add: ChatHistory_init_def append_msg_def ChatHistory_append_def pop_def)

text \<open>
  C6. With \<open>n_steps \<le> 0\<close>, \<open>run\<close> returns the empty string, does not raise, makes
  no call to the client, and both histories are as they were seeded.
\<close>

theorem run_nonpositive_steps:
  assumes "n_steps \<le> 0"
  shows "run port mdl client0 user_msg gsp rsp n_steps =
           (Inr [], initial_state client0 user_msg gsp rsp, [])"
  using assms by (simp add: run_def initial_state_def Let_def)

theorem run_nonpositive_steps_witness:
  "(0::int) \<le> 0 \<and>
   run (\<lambda>c h m. (Inr ''text'', c)) ''model'' () ''hello'' None None 0 =
     (Inr [],
      \<lparr>client = (),
       generation_history =
         \<lparr>kind = FixedFirst,
          items = [\<lparr>role = ''system'', content = BASE_GENERATION_SYSTEM_PROMPT\<rparr>,
                   \<lparr>role = ''user'', content = ''hello''\<rparr>],
          total_length = 3\<rparr>,
       reflection_history =
         \<lparr>kind = FixedFirst,
          items = [\<lparr>role = ''system'', content = BASE_REFLECTION_SYSTEM_PROMPT\<rparr>],
          total_length = 3\<rparr>,
       final_generation = []\<rparr>,
      [])"
  using run_nonpositive_steps [of 0 "\<lambda>c h m. (Inr ''text'', c)" "''model''" "()" "''hello''" None None]
  by (simp add: initial_state_def FixedFirstChatHistory_init_def ChatHistory_init_def
        build_prompt_structure_def compose_prompt_def)

text \<open>
  C5, as stated, fails. A \<open>FixedFirstChatHistory\<close> with \<open>total_length = 1\<close> is
  constructed like any other, and \<open>run\<close> with \<open>n_steps = -1\<close> returns the empty string
  instead of raising.
\<close>

theorem invalid_parameters_counterexample:
  "FixedFirstChatHistory_init (Some [''sys'']) 1 =
     \<lparr>kind = FixedFirst, items = [''sys''], total_length = 1\<rparr> \<and>
   fst (run (\<lambda>c h m. (Inr ''text'', c)) ''model'' () ''hello'' None None (- 1)) = Inr []"
  by (simp add: FixedFirstChatHistory_init_def ChatHistory_init_def run_def initial_state_def)

text \<open>
  C5, amended. Neither parameter is checked. Constructing a \<open>FixedFirstChatHistory\<close>
  with any \<open>total_length\<close>, also one below 2, gives the history with the given seed
  messages and that \<open>total_length\<close>; \<open>run\<close> with a negative \<open>n_steps\<close> returns the
  empty string without raising and without calling the client.
\<close>

theorem invalid_parameters_not_rejected:
  "FixedFirstChatHistory_init messages cap =
     \<lparr>kind = FixedFirst, items = (case messages of None \<Rightarrow> [] | Some ms \<Rightarrow> ms),
      total_length = cap\<rparr> \<and>
   (n_steps < 0 \<longrightarrow>
      run port mdl client0 user_msg gsp rsp n_steps =
        (Inr [], initial_state client0 user_msg gsp rsp, []))"
  by (simp add: FixedFirstChatHistory_init_def ChatHistory_init_def run_def initial_state_def)

theorem invalid_parameters_not_rejected_witness:
  "FixedFirstChatHistory_init (Some [''sys'']) 0 =
     \<lparr>kind = FixedFirst, items = [''sys''], total_length = 0\<rparr> \<and>
   (- 2 :: int) < 0 \<and>
   run (\<lambda>c h m. (Inr ''text'', c)) ''model'' () ''hello'' None None (- 2) =
     (Inr [], initial_state () ''hello'' None None, [])"
  using invalid_parameters_not_rejected
          [where messages = "Some [''sys'']" and cap = 0 and n_steps = "- 2"
             and port = "\<lambda>c h m. (Inr ''text'', c)" and mdl = "''model''" and ?client0.0 = "()"
             and user_msg = "''hello''" and gsp = None and rsp = None]
  by simp

section \<open>One pass through the loop body\<close>

lemma update_chat_history_capped:
  assumes "kind h = FixedFirst" and "total_length h = 3"
  shows "update_chat_history h text rl = (None, h\<lparr>items := push3 (items h) rl text\<rparr>)"
  using assms
  by (simp add: update_chat_history_def append_msg_def FixedFirst_append_ok push3_def
        build_prompt_structure_def)

lemma loop_body_capped:
  assumes "capped3 s"
  shows "loop_body port mdl s =
     (case port (client s) (items (generation_history s)) mdl of
        (Inl e, c1) \<Rightarrow>
          (Raise e, s\<lparr>client := c1\<rparr>,
           [\<lparr>stage = Generate, sent = items (generation_history s), reply = Inl e\<rparr>])
      | (Inr g, c1) \<Rightarrow>
          (let gen1 = push3 (items (generation_history s)) ''assistant'' g;
               ref1 = push3 (items (reflection_history s)) ''user'' g;
               call1 = \<lparr>stage = Generate, sent = items (generation_history s), reply = Inr g\<rparr>
           in case port c1 ref1 mdl of
                (Inl e, c2) \<Rightarrow>
                  (Raise e,
                   \<lparr>client = c2,
                    generation_history = (generation_history s)\<lparr>items := gen1\<rparr>,
                    reflection_history = (reflection_history s)\<lparr>items := ref1\<rparr>,
                    final_generation = g\<rparr>,
                   [call1, \<lparr>stage = Reflect, sent = ref1, reply = Inl e\<rparr>])
              | (Inr critique, c2) \<Rightarrow>
                  if has_stop_sequence critique
                  then (Break,
                        \<lparr>client = c2,
                         generation_history = (generation_history s)\<lparr>items := gen1\<rparr>,
                         reflection_history = (reflection_history s)\<lparr>items := ref1\<rparr>,
                         final_generation = g\<rparr>,
                        [call1, \<lparr>stage = Reflect, sent = ref1, reply = Inr critique\<rparr>])
                  else (Continue,
                        \<lparr>client = c2,
                         generation_history =
                           (generation_history s)\<lparr>items := push3 gen1 ''user'' critique\<rparr>,
                         reflection_history =
                           (reflection_history s)\<lparr>items := push3 ref1 ''assistant'' critique\<rparr>,
                         final_generation = g\<rparr>,
                        [call1, \<lparr>stage = Reflect, sent = ref1, reply = Inr critique\<rparr>])))"
  using assms
  by (simp add: loop_body_def generate_def reflect_def request_completion_def
        completions_create_def capped3_def update_chat_history_capped Let_def
        split: prod.splits sum.splits)


lemma loop_body_elim:
  fixes s :: "'s run_state"
  assumes "capped3 s"
  obtains
    (gen_raise) e c1 where
      "loop_body port mdl s =
         (Raise e, s\<lparr>client := c1\<rparr>,
          [\<lparr>stage = Generate, sent = items (generation_history s), reply = Inl e\<rparr>])"
  | (ref_raise) g e s1 where
      "loop_body port mdl s =
         (Raise e, s1,
          [\<lparr>stage = Generate, sent = items (generation_history s), reply = Inr g\<rparr>,
           \<lparr>stage = Reflect, sent = push3 (items (reflection_history s)) ''user'' g,
              reply = Inl e\<rparr>])"
      "final_generation s1 = g"
      "items (generation_history s1) = push3 (items (generation_history s)) ''assistant'' g"
      "items (reflection_history s1) = push3 (items (reflection_history s)) ''user'' g"
  | (stop) g critique s1 where
      "loop_body port mdl s =
         (Break, s1,
          [\<lparr>stage = Generate, sent = items (generation_history s), reply = Inr g\<rparr>,
           \<lparr>stage = Reflect, sent = push3 (items (reflection_history s)) ''user'' g,
              reply = Inr critique\<rparr>])"
      "has_stop_sequence critique"
      "final_generation s1 = g"
      "items (generation_history s1) = push3 (items (generation_history s)) ''assistant'' g"
      "items (reflection_history s1) = push3 (items (reflection_history s)) ''user'' g"
  | (cont) g critique s1 where
      "loop_body port mdl s =
         (Continue, s1,
          [\<lparr>stage = Generate, sent = items (generation_history s), reply = Inr g\<rparr>,
           \<lparr>stage = Reflect, sent = push3 (items (reflection_history s)) ''user'' g,
              reply = Inr critique\<rparr>])"
      "\<not> has_stop_sequence critique"
      "capped3 s1"
      "final_generation s1 = g"
      "items (generation_history s1) =
         push3 (push3 (items (generation_history s)) ''assistant'' g) ''user'' critique"
      "items (reflection_history s1) =
         push3 (push3 (items (reflection_history s)) ''user'' g) ''assistant'' critique"
proof -
  obtain r1 c1 where p1: "port (client s) (items (generation_history s)) mdl = (r1, c1)"
    by (cases "port (client s) (items (generation_history s)) mdl")
  show thesis
  proof (cases r1)
    case (Inl e)
    with p1 assms show thesis
      by (intro gen_raise[of e c1]) (simp add: loop_body_capped)
  next
    case (Inr g)
    define gen1 where "gen1 = push3 (items (generation_history s)) ''assistant'' g"
    define ref1 where "ref1 = push3 (items (reflection_history s)) ''user'' g"
    define mid where
      "mid = (\<lambda>c2::'s. \<lparr>client = c2,
                     generation_history = (generation_history s)\<lparr>items := gen1\<rparr>,
                     reflection_history = (reflection_history s)\<lparr>items := ref1\<rparr>,
                     final_generation = g\<rparr>)"
    obtain r2 c2 where p2: "port c1 ref1 mdl = (r2, c2)"
      by (cases "port c1 ref1 mdl")
    show thesis
    proof (cases r2)
      case (Inl e)
      have "loop_body port mdl s =
              (Raise e, mid c2,
               [\<lparr>stage = Generate, sent = items (generation_history s), reply = Inr g\<rparr>,
                \<lparr>stage = Reflect, sent = push3 (items (reflection_history s)) ''user'' g,
                   reply = Inl e\<rparr>])"
        using p1 p2 Inr Inl assms by (simp add: loop_body_capped mid_def gen1_def ref1_def Let_def)
      then show thesis
        by (rule ref_raise) (simp_all add: mid_def gen1_def ref1_def)
    next
      case crit: (Inr critique)
      show thesis
      proof (cases "has_stop_sequence critique")
        case True
        have "loop_body port mdl s =
                (Break, mid c2,
                 [\<lparr>stage = Generate, sent = items (generation_history s), reply = Inr g\<rparr>,
                  \<lparr>stage = Reflect, sent = push3 (items (reflection_history s)) ''user'' g,
                     reply = Inr critique\<rparr>])"
          using p1 p2 Inr crit True assms
          by (simp add: loop_body_capped mid_def gen1_def ref1_def Let_def)
        then show thesis using True
          by (rule stop) (simp_all add: mid_def gen1_def ref1_def)
      next
        case False
        define nxt where
          "nxt = \<lparr>client = c2,
                  generation_history =
                    (generation_history s)\<lparr>items := push3 gen1 ''user'' critique\<rparr>,
                  reflection_history =
                    (reflection_history s)\<lparr>items := push3 ref1 ''assistant'' critique\<rparr>,
                  final_generation = g\<rparr>"
        have "loop_body port mdl s =
                (Continue, nxt,
                 [\<lparr>stage = Generate, sent = items (generation_history s), reply = Inr g\<rparr>,
                  \<lparr>stage = Reflect, sent = push3 (items (reflection_history s)) ''user'' g,
                     reply = Inr critique\<rparr>])"
          using p1 p2 Inr crit False assms
          by (simp add: loop_body_capped nxt_def gen1_def ref1_def Let_def)
        then show thesis using False
        proof (rule cont)
          show "capped3 nxt" using assms by (simp add: capped3_def nxt_def)
        qed (simp_all add: nxt_def gen1_def ref1_def)
      qed
    qed
  qed
qed

lemma push3_twice:
  assumes "2 \<le> length xs" and "length xs \<le> 3"
  shows "push3 (push3 xs r1 t1) r2 t2 =
           [hd xs, \<lparr>role = r1, content = t1\<rparr>, \<lparr>role = r2, content = t2\<rparr>]"
proof (cases xs)
  case Nil
  with assms show ?thesis by simp
next
  case (Cons a ys)
  with assms show ?thesis
    by (cases ys; cases "tl ys"; cases "tl (tl ys)") (auto simp: push3_def)
qed


section \<open>The loop\<close>

lemma nth_Cons2: "2 \<le> n \<Longrightarrow> (a # b # xs) ! n = xs ! (n - 2)"
  by (cases n; cases "n - 1") auto

lemma run_loop_all_continue:
  assumes "capped3 s" and "run_loop port mdl k s = (r, s', calls)"
    and "\<forall>c\<in>set calls. \<exists>t. reply c = Inr t \<and> (stage c = Reflect \<longrightarrow> \<not> has_stop_sequence t)"
  shows "r = None \<and> map stage calls = concat (replicate k [Generate, Reflect]) \<and>
         (0 < k \<longrightarrow> reply (calls ! (2 * k - 2)) = Inr (final_generation s'))"
  using assms
proof (induction k arbitrary: s r s' calls)
  case 0
  then show ?case by simp
next
  case (Suc k)
  from Suc.prems(1) show ?case
  proof (cases rule: loop_body_elim[where port = port and mdl = mdl])
    case (gen_raise e c1)
    with Suc.prems(2,3) show ?thesis by auto
  next
    case (ref_raise g e s1)
    with Suc.prems(2,3) show ?thesis by auto
  next
    case (stop g critique s1)
    with Suc.prems(2,3) show ?thesis by auto
  next
    case (cont g critique s1)
    obtain r2 s2 calls2 where rest: "run_loop port mdl k s1 = (r2, s2, calls2)"
      by (cases "run_loop port mdl k s1")
    with cont(1) Suc.prems(2) have eqs: "r = r2" "s' = s2"
      "calls = \<lparr>stage = Generate, sent = items (generation_history s), reply = Inr g\<rparr> #
               \<lparr>stage = Reflect, sent = push3 (items (reflection_history s)) ''user'' g,
                  reply = Inr critique\<rparr> # calls2"
      by simp_all
    have good2: "\<forall>c\<in>set calls2. \<exists>t. reply c = Inr t \<and>
                   (stage c = Reflect \<longrightarrow> \<not> has_stop_sequence t)"
      using Suc.prems(3) eqs(3) by simp
    from Suc.IH[OF cont(3) rest good2]
    have ih: "r2 = None" "map stage calls2 = concat (replicate k [Generate, Reflect])"
      "0 < k \<longrightarrow> reply (calls2 ! (2 * k - 2)) = Inr (final_generation s2)"
      by simp_all
    have "reply (calls ! (2 * Suc k - 2)) = Inr (final_generation s')"
    proof (cases k)
      case 0
      with rest cont(4) eqs show ?thesis by simp
    next
      case (Suc j)
      then have "2 * Suc k - 2 = Suc (Suc (2 * k - 2))" by simp
      with ih(3) Suc eqs show ?thesis by simp
    qed
    with ih eqs show ?thesis by simp
  qed
qed



lemma run_loop_context:
  assumes "capped3 s" and "2 \<le> length (items (generation_history s))"
    and "length (items (generation_history s)) \<le> 3"
    and "run_loop port mdl k s = (r, s', calls)"
  shows "(calls \<noteq> [] \<longrightarrow>
            stage (calls ! 0) = Generate \<and> sent (calls ! 0) = items (generation_history s)) \<and>
         (\<forall>i. 0 < i \<and> 2 * i < length calls \<longrightarrow>
            (\<exists>g c. stage (calls ! (2 * i - 2)) = Generate \<and> reply (calls ! (2 * i - 2)) = Inr g \<and>
                   stage (calls ! (2 * i - 1)) = Reflect \<and> reply (calls ! (2 * i - 1)) = Inr c \<and>
                   \<not> has_stop_sequence c \<and>
                   stage (calls ! (2 * i)) = Generate \<and>
                   sent (calls ! (2 * i)) =
                     [hd (items (generation_history s)),
                      \<lparr>role = ''assistant'', content = g\<rparr>,
                      \<lparr>role = ''user'', content = c\<rparr>]))"
  using assms
proof (induction k arbitrary: s r s' calls)
  case 0
  then show ?case by simp
next
  case (Suc k)
  from Suc.prems(1) show ?case
  proof (cases rule: loop_body_elim[where port = port and mdl = mdl])
    case (gen_raise e' c1)
    with Suc.prems(4) show ?thesis by auto
  next
    case (ref_raise g e' s1)
    with Suc.prems(4) show ?thesis by auto
  next
    case (stop g critique s1)
    with Suc.prems(4) show ?thesis by auto
  next
    case (cont g critique s1)
    obtain r2 s2 calls2 where rest: "run_loop port mdl k s1 = (r2, s2, calls2)"
      by (cases "run_loop port mdl k s1")
    with cont(1) Suc.prems(4) have eqs: "r = r2" "s' = s2"
      "calls = \<lparr>stage = Generate, sent = items (generation_history s), reply = Inr g\<rparr> #
               \<lparr>stage = Reflect, sent = push3 (items (reflection_history s)) ''user'' g,
                  reply = Inr critique\<rparr> # calls2"
      by simp_all
    have gen1: "items (generation_history s1) =
                  [hd (items (generation_history s)), \<lparr>role = ''assistant'', content = g\<rparr>,
                   \<lparr>role = ''user'', content = critique\<rparr>]"
      using cont(5) Suc.prems(2,3) by (simp add: push3_twice)
    then have len1: "2 \<le> length (items (generation_history s1))"
      "length (items (generation_history s1)) \<le> 3" by simp_all
    from Suc.IH[OF cont(3) len1 rest] gen1
    have ih0: "calls2 \<noteq> [] \<longrightarrow> stage (calls2 ! 0) = Generate \<and>
                 sent (calls2 ! 0) =
                   [hd (items (generation_history s)), \<lparr>role = ''assistant'', content = g\<rparr>,
                    \<lparr>role = ''user'', content = critique\<rparr>]"
      and ih: "\<And>j. 0 < j \<Longrightarrow> 2 * j < length calls2 \<Longrightarrow>
            (\<exists>g c. stage (calls2 ! (2 * j - 2)) = Generate \<and> reply (calls2 ! (2 * j - 2)) = Inr g \<and>
                   stage (calls2 ! (2 * j - 1)) = Reflect \<and> reply (calls2 ! (2 * j - 1)) = Inr c \<and>
                   \<not> has_stop_sequence c \<and>
                   stage (calls2 ! (2 * j)) = Generate \<and>
                   sent (calls2 ! (2 * j)) =
                     [hd (items (generation_history s)),
                      \<lparr>role = ''assistant'', content = g\<rparr>,
                      \<lparr>role = ''user'', content = c\<rparr>])"
      by simp_all
    have first: "calls \<noteq> [] \<longrightarrow>
            stage (calls ! 0) = Generate \<and> sent (calls ! 0) = items (generation_history s)"
      using eqs(3) by simp
    have later: "\<exists>g c. stage (calls ! (2 * i - 2)) = Generate \<and> reply (calls ! (2 * i - 2)) = Inr g \<and>
                   stage (calls ! (2 * i - 1)) = Reflect \<and> reply (calls ! (2 * i - 1)) = Inr c \<and>
                   \<not> has_stop_sequence c \<and>
                   stage (calls ! (2 * i)) = Generate \<and>
                   sent (calls ! (2 * i)) =
                     [hd (items (generation_history s)),
                      \<lparr>role = ''assistant'', content = g\<rparr>,
                      \<lparr>role = ''user'', content = c\<rparr>]"
      if i: "0 < i" "2 * i < length calls" for i
    proof (cases "i = 1")
      case True
      with i eqs(3) have "calls2 \<noteq> []" by auto
      with ih0 True eqs(3) cont(2) show ?thesis by (simp add: numeral_2_eq_2)
    next
      case False
      with i obtain j where j: "i = Suc j" "0 < j" by (cases i) auto
      with i eqs(3) have lt: "2 * j < length calls2" by simp
      have idx: "calls ! (2 * i) = calls2 ! (2 * j)"
        "calls ! (2 * i - 1) = calls2 ! (2 * j - 1)"
        "calls ! (2 * i - 2) = calls2 ! (2 * j - 2)"
        using j eqs(3) by (simp_all add: nth_Cons2 numeral_2_eq_2)
      from ih[OF j(2) lt] show ?thesis
        unfolding idx .
    qed
    from first later show ?thesis by blast
  qed
qed

section \<open>Properties of run\<close>

lemma capped3_initial: "capped3 (initial_state c0 u gsp rsp)"
  by (simp add: capped3_def initial_state_def FixedFirstChatHistory_init_def ChatHistory_init_def)

lemma items_initial:
  "items (generation_history (initial_state c0 u gsp rsp)) =
     [\<lparr>role = ''system'', content = compose_prompt gsp BASE_GENERATION_SYSTEM_PROMPT\<rparr>,
      \<lparr>role = ''user'', content = u\<rparr>]"
  "items (reflection_history (initial_state c0 u gsp rsp)) =
     [\<lparr>role = ''system'', content = compose_prompt rsp BASE_REFLECTION_SYSTEM_PROMPT\<rparr>]"
  by (simp_all add: initial_state_def FixedFirstChatHistory_init_def ChatHistory_init_def
        build_prompt_structure_def)

lemma run_loop_stages:
  assumes "capped3 s" and "run_loop port mdl k s = (r, s', calls)" and "j < length calls"
  shows "stage (calls ! j) = (if even j then Generate else Reflect)"
  using assms
proof (induction k arbitrary: s r s' calls j)
  case 0
  then show ?case by simp
next
  case (Suc k)
  from Suc.prems(1) show ?case
  proof (cases rule: loop_body_elim[where port = port and mdl = mdl])
    case (gen_raise e' c1)
    with Suc.prems(2,3) show ?thesis by auto
  next
    case (ref_raise g e' s1)
    with Suc.prems(2,3) show ?thesis by (cases j) auto
  next
    case (stop g critique s1)
    with Suc.prems(2,3) show ?thesis by (cases j) auto
  next
    case (cont g critique s1)
    obtain r2 s2 calls2 where rest: "run_loop port mdl k s1 = (r2, s2, calls2)"
      by (cases "run_loop port mdl k s1")
    with cont(1) Suc.prems(2) have eqs:
      "calls = \<lparr>stage = Generate, sent = items (generation_history s), reply = Inr g\<rparr> #
               \<lparr>stage = Reflect, sent = push3 (items (reflection_history s)) ''user'' g,
                  reply = Inr critique\<rparr> # calls2"
      by simp_all
    show ?thesis
    proof (cases "j < 2")
      case True
      then have "j = 0 \<or> j = 1" by auto
      then show ?thesis using eqs by auto
    next
      case False
      then have j2: "2 \<le> j" by simp
      with Suc.prems(3) eqs have "j - 2 < length calls2" by simp
      from Suc.IH[OF cont(3) rest this]
      have "stage (calls2 ! (j - 2)) = (if even (j - 2) then Generate else Reflect)" .
      moreover have "calls ! j = calls2 ! (j - 2)" unfolding eqs using j2 by (rule nth_Cons2)
      moreover have "even (j - 2) = even j" using j2 by simp
      ultimately show ?thesis by simp
    qed
  qed
qed

text \<open>
  C1. Take any client and any \<open>n_steps \<ge> 1\<close>. If every call of the run returned a text
  and every reflect-stage reply contained \<open><OK>\<close>, then the run made exactly two calls,
  one generate call and then one reflect call, and returned the text of that generate
  call. The generation history ends with that text as the assistant message and the
  reflection history with it as the user message: the critique is in neither.
\<close>

theorem run_stops_at_sentinel:
  assumes "1 \<le> n_steps"
    and "run port mdl client0 user_msg gsp rsp n_steps = (out, s', calls)"
    and "\<forall>c\<in>set calls. \<exists>t. reply c = Inr t \<and> (stage c = Reflect \<longrightarrow> has_stop_sequence t)"
  shows "\<exists>g critique.
           calls =
             [\<lparr>stage = Generate,
               sent = [\<lparr>role = ''system'',
                         content = compose_prompt gsp BASE_GENERATION_SYSTEM_PROMPT\<rparr>,
                       \<lparr>role = ''user'', content = user_msg\<rparr>],
               reply = Inr g\<rparr>,
              \<lparr>stage = Reflect,
               sent = [\<lparr>role = ''system'',
                         content = compose_prompt rsp BASE_REFLECTION_SYSTEM_PROMPT\<rparr>,
                       \<lparr>role = ''user'', content = g\<rparr>],
               reply = Inr critique\<rparr>] \<and>
           has_stop_sequence critique \<and>
           out = Inr g \<and>
           items (generation_history s') =
             [\<lparr>role = ''system'', content = compose_prompt gsp BASE_GENERATION_SYSTEM_PROMPT\<rparr>,
              \<lparr>role = ''user'', content = user_msg\<rparr>,
              \<lparr>role = ''assistant'', content = g\<rparr>] \<and>
           items (reflection_history s') =
             [\<lparr>role = ''system'', content = compose_prompt rsp BASE_REFLECTION_SYSTEM_PROMPT\<rparr>,
              \<lparr>role = ''user'', content = g\<rparr>]"
proof -
  let ?s0 = "initial_state client0 user_msg gsp rsp"
  from assms(1) obtain k where k: "nat n_steps = Suc k" by (cases "nat n_steps") auto
  have cap: "capped3 ?s0" by (rule capped3_initial)
  from cap show ?thesis
  proof (cases rule: loop_body_elim[where port = port and mdl = mdl])
    case (gen_raise e c1)
    with assms(2,3) k show ?thesis by (auto simp: run_def)
  next
    case (ref_raise g e s1)
    with assms(2,3) k show ?thesis by (auto simp: run_def)
  next
    case (stop g critique s1)
    with assms(2) k have "out = Inr g" "s' = s1"
      "calls = [\<lparr>stage = Generate, sent = items (generation_history ?s0), reply = Inr g\<rparr>,
                \<lparr>stage = Reflect, sent = push3 (items (reflection_history ?s0)) ''user'' g,
                   reply = Inr critique\<rparr>]"
      by (auto simp: run_def)
    with stop(2,4,5) show ?thesis
      by (simp add: items_initial push3_def)
  next
    case (cont g critique s1)
    obtain r2 s2 calls2 where "run_loop port mdl k s1 = (r2, s2, calls2)"
      by (cases "run_loop port mdl k s1")
    with cont(1) assms(2) k have
      "\<lparr>stage = Reflect, sent = push3 (items (reflection_history ?s0)) ''user'' g,
          reply = Inr critique\<rparr> \<in> set calls"
      by (auto simp: run_def split: option.splits)
    with assms(3) cont(2) show ?thesis by auto
  qed
qed

text \<open>
  C2. Take any client and \<open>n_steps = 3\<close>. If every call of the run returned a text and
  no reflect-stage reply contained \<open><OK>\<close>, then the run made six calls, generate and
  reflect alternating three times, and returned the text of the third generate call
  (the fifth call).
\<close>

theorem run_exhausts_budget:
  assumes "run port mdl client0 user_msg gsp rsp 3 = (out, s', calls)"
    and "\<forall>c\<in>set calls. \<exists>t. reply c = Inr t \<and> (stage c = Reflect \<longrightarrow> \<not> has_stop_sequence t)"
  shows "map stage calls = [Generate, Reflect, Generate, Reflect, Generate, Reflect] \<and>
         out = reply (calls ! 4) \<and> (\<exists>g. out = Inr g)"
proof -
  obtain r where loop:
    "run_loop port mdl 3 (initial_state client0 user_msg gsp rsp) = (r, s', calls)"
    and out: "out = (case r of Some e \<Rightarrow> Inl e | None \<Rightarrow> Inr (final_generation s'))"
    using assms(1) by (auto simp: run_def split: prod.splits option.splits)
  from run_loop_all_continue[OF capped3_initial loop assms(2)]
  have "r = None" "map stage calls = concat (replicate 3 [Generate, Reflect])"
    "reply (calls ! 4) = Inr (final_generation s')"
    by simp_all
  with out show ?thesis by (simp add: numeral_3_eq_3)
qed


text \<open>
  C9. For any client and any \<open>n_steps\<close>: every generate call of the run other than the
  first comes right after a generate call and a reflect call that returned texts \<open>g\<close> and
  \<open>c\<close>, with \<open>c\<close> free of \<open><OK>\<close>, and is sent exactly three messages: the system
  prompt, \<open>g\<close> as assistant and \<open>c\<close> as user. The user's initial message is not among
  them any more.
\<close>

theorem later_generate_calls_context:
  assumes "run port mdl client0 user_msg gsp rsp n_steps = (out, s', calls)"
    and "0 < j" and "j < length calls" and "stage (calls ! j) = Generate"
  shows "2 \<le> j \<and>
         (\<exists>g c. stage (calls ! (j - 2)) = Generate \<and> reply (calls ! (j - 2)) = Inr g \<and>
                stage (calls ! (j - 1)) = Reflect \<and> reply (calls ! (j - 1)) = Inr c \<and>
                \<not> has_stop_sequence c \<and>
                sent (calls ! j) =
                  [\<lparr>role = ''system'',
                    content = compose_prompt gsp BASE_GENERATION_SYSTEM_PROMPT\<rparr>,
                   \<lparr>role = ''assistant'', content = g\<rparr>,
                   \<lparr>role = ''user'', content = c\<rparr>])"
proof -
  let ?s0 = "initial_state client0 user_msg gsp rsp"
  obtain r where loop: "run_loop port mdl (nat n_steps) ?s0 = (r, s', calls)"
    using assms(1) by (auto simp: run_def split: prod.splits option.splits)
  from run_loop_stages[OF capped3_initial loop assms(3)] assms(4)
  have "even j" by (simp split: if_splits)
  with assms(2) obtain i where i: "j = 2 * i" "0 < i" by (auto elim: evenE)
  have len: "2 \<le> length (items (generation_history ?s0))"
    "length (items (generation_history ?s0)) \<le> 3"
    by (simp_all add: items_initial)
  from run_loop_context[OF capped3_initial len loop]
  have "\<forall>i. 0 < i \<and> 2 * i < length calls \<longrightarrow>
            (\<exists>g c. stage (calls ! (2 * i - 2)) = Generate \<and> reply (calls ! (2 * i - 2)) = Inr g \<and>
                   stage (calls ! (2 * i - 1)) = Reflect \<and> reply (calls ! (2 * i - 1)) = Inr c \<and>
                   \<not> has_stop_sequence c \<and>
                   stage (calls ! (2 * i)) = Generate \<and>
                   sent (calls ! (2 * i)) =
                     [hd (items (generation_history ?s0)),
                      \<lparr>role = ''assistant'', content = g\<rparr>,
                      \<lparr>role = ''user'', content = c\<rparr>])"
    by (rule conjunct2)
  then have "\<exists>g c. stage (calls ! (j - 2)) = Generate \<and> reply (calls ! (j - 2)) = Inr g \<and>
                   stage (calls ! (j - 1)) = Reflect \<and> reply (calls ! (j - 1)) = Inr c \<and>
                   \<not> has_stop_sequence c \<and>
                   stage (calls ! j) = Generate \<and>
                   sent (calls ! j) =
                     [hd (items (generation_history ?s0)),
                      \<lparr>role = ''assistant'', content = g\<rparr>,
                      \<lparr>role = ''user'', content = c\<rparr>]"
    using i assms(3) by blast
  moreover have "2 \<le> j" using i by simp
  ultimately show ?thesis by (auto simp: items_initial)
qed

section \<open>Runs against a scripted client\<close>

lemmas run_eval =
  run_def initial_state_def compose_prompt_def FixedFirstChatHistory_init_def
  ChatHistory_init_def build_prompt_structure_def loop_body_def generate_def reflect_def
  request_completion_def completions_create_def scripted_client_def update_chat_history_def
  append_msg_def FixedFirstChatHistory_append_def pop_def has_stop_sequence_def Let_def
  sublist_code eval_nat_numeral

theorem run_stops_at_sentinel_witness:
  "(1::int) \<le> 5 \<and>
   run scripted_client ''model'' [Inr ''draft'', Inr ''Fine. <OK>''] ''hello'' None None 5 =
     (Inr ''draft'',
      \<lparr>client = [],
       generation_history =
         \<lparr>kind = FixedFirst,
          items = [\<lparr>role = ''system'', content = BASE_GENERATION_SYSTEM_PROMPT\<rparr>,
                   \<lparr>role = ''user'', content = ''hello''\<rparr>,
                   \<lparr>role = ''assistant'', content = ''draft''\<rparr>],
          total_length = 3\<rparr>,
       reflection_history =
         \<lparr>kind = FixedFirst,
          items = [\<lparr>role = ''system'', content = BASE_REFLECTION_SYSTEM_PROMPT\<rparr>,
                   \<lparr>role = ''user'', content = ''draft''\<rparr>],
          total_length = 3\<rparr>,
       final_generation = ''draft''\<rparr>,
      [\<lparr>stage = Generate,
        sent = [\<lparr>role = ''system'', content = BASE_GENERATION_SYSTEM_PROMPT\<rparr>,
                \<lparr>role = ''user'', content = ''hello''\<rparr>],
        reply = Inr ''draft''\<rparr>,
       \<lparr>stage = Reflect,
        sent = [\<lparr>role = ''system'', content = BASE_REFLECTION_SYSTEM_PROMPT\<rparr>,
                \<lparr>role = ''user'', content = ''draft''\<rparr>],
        reply = Inr ''Fine. <OK>''\<rparr>])"
proof -
  let ?calls =
     "[\<lparr>stage = Generate,
        sent = [\<lparr>role = ''system'', content = BASE_GENERATION_SYSTEM_PROMPT\<rparr>,
                \<lparr>role = ''user'', content = ''hello''\<rparr>],
        reply = Inr ''draft''\<rparr>,
       \<lparr>stage = Reflect,
        sent = [\<lparr>role = ''system'', content = BASE_REFLECTION_SYSTEM_PROMPT\<rparr>,
                \<lparr>role = ''user'', content = ''draft''\<rparr>],
        reply = Inr ''Fine. <OK>''\<rparr>]"
  have steps: "(1::int) \<le> 5" by simp
  have ev: "run scripted_client ''model'' [Inr ''draft'', Inr ''Fine. <OK>''] ''hello'' None None 5 =
     (Inr ''draft'',
      \<lparr>client = [],
       generation_history =
         \<lparr>kind = FixedFirst,
          items = [\<lparr>role = ''system'', content = BASE_GENERATION_SYSTEM_PROMPT\<rparr>,
                   \<lparr>role = ''user'', content = ''hello''\<rparr>,
                   \<lparr>role = ''assistant'', content = ''draft''\<rparr>],
          total_length = 3\<rparr>,
       reflection_history =
         \<lparr>kind = FixedFirst,
          items = [\<lparr>role = ''system'', content = BASE_REFLECTION_SYSTEM_PROMPT\<rparr>,
                   \<lparr>role = ''user'', content = ''draft''\<rparr>],
          total_length = 3\<rparr>,
       final_generation = ''draft''\<rparr>,
      ?calls)"
    by (simp add: run_eval)
  have good: "\<forall>c\<in>set ?calls. \<exists>t. reply c = Inr t \<and> (stage c = Reflect \<longrightarrow> has_stop_sequence t)"
    by (simp add: has_stop_sequence_def sublist_code)
  from run_stops_at_sentinel[OF steps ev good] ev show ?thesis by simp
qed

theorem run_exhausts_budget_witness:
  "run scripted_client ''model''
       [Inr ''v1'', Inr ''too short'', Inr ''v2'', Inr ''add detail'', Inr ''v3'', Inr ''still vague'']
       ''hello'' None None 3 =
     (Inr ''v3'',
      \<lparr>client = [],
       generation_history =
         \<lparr>kind = FixedFirst,
          items = [\<lparr>role = ''system'', content = BASE_GENERATION_SYSTEM_PROMPT\<rparr>,
                   \<lparr>role = ''assistant'', content = ''v3''\<rparr>,
                   \<lparr>role = ''user'', content = ''still vague''\<rparr>],
          total_length = 3\<rparr>,
       reflection_history =
         \<lparr>kind = FixedFirst,
          items = [\<lparr>role = ''system'', content = BASE_REFLECTION_SYSTEM_PROMPT\<rparr>,
                   \<lparr>role = ''user'', content = ''v3''\<rparr>,
                   \<lparr>role = ''assistant'', content = ''still vague''\<rparr>],
          total_length = 3\<rparr>,
       final_generation = ''v3''\<rparr>,
      [\<lparr>stage = Generate,
        sent = [\<lparr>role = ''system'', content = BASE_GENERATION_SYSTEM_PROMPT\<rparr>,
                \<lparr>role = ''user'', content = ''hello''\<rparr>],
        reply = Inr ''v1''\<rparr>,
       \<lparr>stage = Reflect,
        sent = [\<lparr>role = ''system'', content = BASE_REFLECTION_SYSTEM_PROMPT\<rparr>,
                \<lparr>role = ''user'', content = ''v1''\<rparr>],
        reply = Inr ''too short''\<rparr>,
       \<lparr>stage = Generate,
        sent = [\<lparr>role = ''system'', content = BASE_GENERATION_SYSTEM_PROMPT\<rparr>,
                \<lparr>role = ''assistant'', content = ''v1''\<rparr>,
                \<lparr>role = ''user'', content = ''too short''\<rparr>],
        reply = Inr ''v2''\<rparr>,
       \<lparr>stage = Reflect,
        sent = [\<lparr>role = ''system'', content = BASE_REFLECTION_SYSTEM_PROMPT\<rparr>,
                \<lparr>role = ''assistant'', content = ''too short''\<rparr>,
                \<lparr>role = ''user'', content = ''v2''\<rparr>],
        reply = Inr ''add detail''\<rparr>,
       \<lparr>stage = Generate,
        sent = [\<lparr>role = ''system'', content = BASE_GENERATION_SYSTEM_PROMPT\<rparr>,
                \<lparr>role = ''assistant'', content = ''v2''\<rparr>,
                \<lparr>role = ''user'', content = ''add detail''\<rparr>],
        reply = Inr ''v3''\<rparr>,
       \<lparr>stage = Reflect,
        sent = [\<lparr>role = ''system'', content = BASE_REFLECTION_SYSTEM_PROMPT\<rparr>,
                \<lparr>role = ''assistant'', content = ''add detail''\<rparr>,
                \<lparr>role = ''user'', content = ''v3''\<rparr>],
        reply = Inr ''still vague''\<rparr>])"
  (is "?run = (?out, ?fin, ?calls)")
proof -
  have ev: "?run = (?out, ?fin, ?calls)"
    by (simp add: run_eval)
  have good: "\<forall>c\<in>set ?calls. \<exists>t. reply c = Inr t \<and> (stage c = Reflect \<longrightarrow> \<not> has_stop_sequence t)"
    by (simp add: has_stop_sequence_def sublist_code)
  from run_exhausts_budget[OF ev good] ev show ?thesis by simp
qed


theorem later_generate_calls_context_witness:
  "(0::nat) < 2 \<and>
   run scripted_client ''model'' [Inr ''v1'', Inr ''too short'', Inr ''v2'', Inr ''<OK>'']
       ''hello'' None None 10 =
     (Inr ''v2'',
      \<lparr>client = [],
       generation_history =
         \<lparr>kind = FixedFirst,
          items = [\<lparr>role = ''system'', content = BASE_GENERATION_SYSTEM_PROMPT\<rparr>,
                   \<lparr>role = ''user'', content = ''too short''\<rparr>,
                   \<lparr>role = ''assistant'', content = ''v2''\<rparr>],
          total_length = 3\<rparr>,
       reflection_history =
         \<lparr>kind = FixedFirst,
          items = [\<lparr>role = ''system'', content = BASE_REFLECTION_SYSTEM_PROMPT\<rparr>,
                   \<lparr>role = ''assistant'', content = ''too short''\<rparr>,
                   \<lparr>role = ''user'', content = ''v2''\<rparr>],
          total_length = 3\<rparr>,
       final_generation = ''v2''\<rparr>,
      [\<lparr>stage = Generate,
        sent = [\<lparr>role = ''system'', content = BASE_GENERATION_SYSTEM_PROMPT\<rparr>,
                \<lparr>role = ''user'', content = ''hello''\<rparr>],
        reply = Inr ''v1''\<rparr>,
       \<lparr>stage = Reflect,
        sent = [\<lparr>role = ''system'', content = BASE_REFLECTION_SYSTEM_PROMPT\<rparr>,
                \<lparr>role = ''user'', content = ''v1''\<rparr>],
        reply = Inr ''too short''\<rparr>,
       \<lparr>stage = Generate,
        sent = [\<lparr>role = ''system'', content = BASE_GENERATION_SYSTEM_PROMPT\<rparr>,
                \<lparr>role = ''assistant'', content = ''v1''\<rparr>,
                \<lparr>role = ''user'', content = ''too short''\<rparr>],
        reply = Inr ''v2''\<rparr>,
       \<lparr>stage = Reflect,
        sent = [\<lparr>role = ''system'', content = BASE_REFLECTION_SYSTEM_PROMPT\<rparr>,
                \<lparr>role = ''assistant'', content = ''too short''\<rparr>,
                \<lparr>role = ''user'', content = ''v2''\<rparr>],
        reply = Inr ''<OK>''\<rparr>])"
  (is "_ \<and> ?run = (?out, ?fin, ?calls)")
proof -
  have ev: "?run = (?out, ?fin, ?calls)"
    by (simp add: run_eval)
  have pos: "(0::nat) < 2" by simp
  have inside: "2 < length ?calls" by simp
  have gen: "stage (?calls ! 2) = Generate" by simp
  from later_generate_calls_context[OF ev pos inside gen] ev show ?thesis by simp
qed

end
